theory Spec2Isabelle
  imports Complex_Main "HOL-Library.Log_Nat"
begin

section \<open>Python values of a result row\<close>

text \<open>
  A PySpark \<^verbatim>\<open>Row\<close> of an NDS-H query result holds simple Python values only.  A Python
  \<^verbatim>\<open>float\<close> is an IEEE 754 double: a finite number, one of the two infinities, or NaN.  A
  finite double is represented by the rational number it denotes, and every arithmetic
  result is rounded to the nearest double (see \<open>round_double\<close> below); the sign of zero is
  outside the model.  A \<^verbatim>\<open>Decimal\<close> read from a Spark decimal column is always finite and is
  represented by its rational value.
\<close>

datatype pyfloat = Fin rat | PInf | NInf | NaN

datatype pyvalue =
    VNone
  | VBool bool
  | VInt int
  | VFloat pyfloat
  | VDecimal rat
  | VStr string

datatype pytype = TNone | TBool | TInt | TFloat | TDecimal | TStr

fun type_of :: "pyvalue \<Rightarrow> pytype" where
  "type_of VNone = TNone"
| "type_of (VBool _) = TBool"
| "type_of (VInt _) = TInt"
| "type_of (VFloat _) = TFloat"
| "type_of (VDecimal _) = TDecimal"
| "type_of (VStr _) = TStr"

datatype pyerror =
    ValueError
  | TypeError
  | KeyError
  | StopIteration
  | AnalysisException
  | FileNotFoundError
  | SummaryFolderMissing
  | MoreThanOneSummary string
  | NoSummary string

type_synonym row = "pyvalue list"

subsection \<open>Arithmetic and comparison of floats (IEEE 754 special values)\<close>

fun isnan :: "pyfloat \<Rightarrow> bool" where
  "isnan NaN = True"
| "isnan _ = False"

fun isinf :: "pyfloat \<Rightarrow> bool" where
  "isinf PInf = True"
| "isinf NInf = True"
| "isinf _ = False"

text \<open>\<^verbatim>\<open>a == b\<close> on floats: NaN is equal to nothing, not even to itself.\<close>

definition feq :: "pyfloat \<Rightarrow> pyfloat \<Rightarrow> bool" where
  "feq a b = (\<not> isnan a \<and> a = b)"

fun flt :: "pyfloat \<Rightarrow> pyfloat \<Rightarrow> bool" where
  "flt NaN _ = False"
| "flt _ NaN = False"
| "flt (Fin x) (Fin y) = (x < y)"
| "flt NInf NInf = False"
| "flt PInf _ = False"
| "flt NInf _ = True"
| "flt (Fin _) PInf = True"
| "flt (Fin _) NInf = False"

fun fle :: "pyfloat \<Rightarrow> pyfloat \<Rightarrow> bool" where
  "fle NaN _ = False"
| "fle _ NaN = False"
| "fle (Fin x) (Fin y) = (x \<le> y)"
| "fle NInf _ = True"
| "fle PInf PInf = True"
| "fle PInf _ = False"
| "fle (Fin _) PInf = True"
| "fle (Fin _) NInf = False"

fun fabs :: "pyfloat \<Rightarrow> pyfloat" where
  "fabs (Fin x) = Fin \<bar>x\<bar>"
| "fabs PInf = PInf"
| "fabs NInf = PInf"
| "fabs NaN = NaN"

subsection \<open>Rounding to the nearest double\<close>

text \<open>
  IEEE 754 binary64, round to nearest, ties to even.  A double has 53 significant bits and
  an exponent of at least -1022, so around a positive number \<open>a\<close> with
  \<open>2 ^ e \<le> a < 2 ^ (e + 1)\<close> the doubles are the multiples of \<open>2 ^ (max e (-1022) - 52)\<close>.
  A number that rounds to \<open>2 ^ 1024\<close> or more overflows to infinity.  Python's \<^verbatim>\<open>float\<close>
  literals, \<^verbatim>\<open>float(Decimal)\<close> and the double operations \<^verbatim>\<open>-\<close> and \<^verbatim>\<open>*\<close> all round this way.
\<close>

definition round_half_even :: "rat \<Rightarrow> int" where
  "round_half_even x =
     (let n = \<lfloor>x\<rfloor>; r = x - of_int n
      in if r < 1 / 2 then n else if 1 / 2 < r then n + 1 else if even n then n else n + 1)"

text \<open>\<open>\<lfloor>log\<^sub>2 a\<rfloor>\<close> for a positive rational, from the bit lengths of numerator and
  denominator.\<close>

definition ilog2 :: "rat \<Rightarrow> int" where
  "ilog2 a =
     (let k = bitlen (fst (quotient_of a)) - bitlen (snd (quotient_of a))
      in if 2 powi k \<le> a then k else k - 1)"

definition quantum :: "rat \<Rightarrow> rat" where
  "quantum a = 2 powi (max (ilog2 a) (- 1022) - 52)"

definition nearest :: "rat \<Rightarrow> rat" where
  "nearest a = of_int (round_half_even (a / quantum a)) * quantum a"

definition round_magnitude :: "rat \<Rightarrow> pyfloat" where
  "round_magnitude a =
     (if a = 0 then Fin 0
      else if 2 powi 1024 \<le> nearest a then PInf
      else Fin (nearest a))"

fun fneg :: "pyfloat \<Rightarrow> pyfloat" where
  "fneg (Fin x) = Fin (- x)"
| "fneg PInf = NInf"
| "fneg NInf = PInf"
| "fneg NaN = NaN"

definition round_double :: "rat \<Rightarrow> pyfloat" where
  "round_double x = (if x < 0 then fneg (round_magnitude (- x)) else round_magnitude x)"

subsection \<open>Double subtraction and multiplication\<close>

fun fsub :: "pyfloat \<Rightarrow> pyfloat \<Rightarrow> pyfloat" where
  "fsub NaN _ = NaN"
| "fsub _ NaN = NaN"
| "fsub (Fin x) (Fin y) = round_double (x - y)"
| "fsub PInf PInf = NaN"
| "fsub NInf NInf = NaN"
| "fsub PInf _ = PInf"
| "fsub NInf _ = NInf"
| "fsub (Fin _) PInf = NInf"
| "fsub (Fin _) NInf = PInf"

fun fmul_inf :: "bool \<Rightarrow> rat \<Rightarrow> pyfloat" where
  "fmul_inf positive x =
     (if x = 0 then NaN else if (0 < x) = positive then PInf else NInf)"

fun fmul :: "pyfloat \<Rightarrow> pyfloat \<Rightarrow> pyfloat" where
  "fmul NaN _ = NaN"
| "fmul _ NaN = NaN"
| "fmul (Fin x) (Fin y) = round_double (x * y)"
| "fmul (Fin x) PInf = fmul_inf True x"
| "fmul (Fin x) NInf = fmul_inf False x"
| "fmul PInf (Fin y) = fmul_inf True y"
| "fmul NInf (Fin y) = fmul_inf False y"
| "fmul PInf PInf = PInf"
| "fmul NInf NInf = PInf"
| "fmul PInf NInf = NInf"
| "fmul NInf PInf = NInf"

text \<open>Python's \<^verbatim>\<open>max(a, b)\<close>: the second argument only when it is strictly greater.\<close>

definition fmax :: "pyfloat \<Rightarrow> pyfloat \<Rightarrow> pyfloat" where
  "fmax a b = (if flt a b then b else a)"

subsection \<open>\<^verbatim>\<open>math.isclose\<close>\<close>

text \<open>
  The library function called by \<^verbatim>\<open>compare\<close>, after CPython's implementation:
  \<^verbatim>\<open>
  if rel_tol < 0.0 or abs_tol < 0.0: raise ValueError("tolerances must be non-negative")
  if a == b: return True
  if isinf(a) or isinf(b): return False
  diff = fabs(b - a)
  return diff <= fabs(rel_tol * b) or diff <= fabs(rel_tol * a) or diff <= abs_tol
  \<close>
\<close>

definition isclose :: "pyfloat \<Rightarrow> pyfloat \<Rightarrow> pyfloat \<Rightarrow> pyfloat \<Rightarrow> pyerror + bool" where
  "isclose a b rel_tol abs_tol =
     (if flt rel_tol (Fin 0) \<or> flt abs_tol (Fin 0) then Inl ValueError
      else if feq a b then Inr True
      else if isinf a \<or> isinf b then Inr False
      else let diff = fabs (fsub b a)
           in Inr (fle diff (fabs (fmul rel_tol b)) \<or> fle diff (fabs (fmul rel_tol a))
                   \<or> fle diff abs_tol))"

subsection \<open>Python equality \<^verbatim>\<open>==\<close> on simple values\<close>

text \<open>
  \<^verbatim>\<open>bool\<close> is a subclass of \<^verbatim>\<open>int\<close>, and \<^verbatim>\<open>int\<close>, \<^verbatim>\<open>float\<close> and \<^verbatim>\<open>Decimal\<close> compare by
  exact numeric value across types.  \<^verbatim>\<open>None\<close> and \<^verbatim>\<open>str\<close> are equal to values of their own
  type only.
\<close>

fun numeric :: "pyvalue \<Rightarrow> pyfloat option" where
  "numeric (VBool b) = Some (Fin (if b then 1 else 0))"
| "numeric (VInt i) = Some (Fin (of_int i))"
| "numeric (VFloat f) = Some f"
| "numeric (VDecimal d) = Some (Fin d)"
| "numeric VNone = None"
| "numeric (VStr _) = None"

fun py_eq :: "pyvalue \<Rightarrow> pyvalue \<Rightarrow> bool" where
  "py_eq VNone VNone = True"
| "py_eq (VStr s) (VStr t) = (s = t)"
| "py_eq x y =
     (case (numeric x, numeric y) of (Some a, Some b) \<Rightarrow> feq a b | _ \<Rightarrow> False)"

section \<open>Value comparator and row comparator\<close>

text \<open>
  \<^verbatim>\<open>
  def compare(expected, actual, epsilon=0.00001):
      if isinstance(expected, float) and isinstance(actual, float):
          if math.isnan(expected) and math.isnan(actual):
              return True
          return math.isclose(expected, actual, rel_tol=epsilon)
      if isinstance(expected, Decimal) and isinstance(actual, Decimal):
          return math.isclose(expected, actual, rel_tol=epsilon)
      return expected == actual
  \<close>
  \<^verbatim>\<open>math.isclose\<close> takes doubles: it converts each Decimal argument with \<^verbatim>\<open>float()\<close>, which
  rounds it to the nearest double; \<^verbatim>\<open>abs_tol\<close> keeps its default 0.0.
\<close>

fun compare :: "pyvalue \<Rightarrow> pyvalue \<Rightarrow> pyfloat \<Rightarrow> pyerror + bool" where
  "compare (VFloat expected) (VFloat actual) epsilon =
     (if isnan expected \<and> isnan actual then Inr True
      else isclose expected actual epsilon (Fin 0))"
| "compare (VDecimal expected) (VDecimal actual) epsilon =
     isclose (round_double expected) (round_double actual) epsilon (Fin 0)"
| "compare expected actual epsilon = Inr (py_eq expected actual)"

text \<open>
  \<^verbatim>\<open>
  def rowEqual(row1, row2, epsilon):
      return all([compare(lhs, rhs, epsilon) for lhs, rhs in zip(row1, row2)])
  \<close>
  The list comprehension evaluates every comparison before \<^verbatim>\<open>all\<close> runs; the first
  comparison that raises ends the call.
\<close>

fun collect_list :: "('e + 'a) list \<Rightarrow> 'e + 'a list" where
  "collect_list [] = Inr []"
| "collect_list (Inl e # _) = Inl e"
| "collect_list (Inr x # rs) = (case collect_list rs of Inl e \<Rightarrow> Inl e | Inr xs \<Rightarrow> Inr (x # xs))"

definition rowEqual :: "row \<Rightarrow> row \<Rightarrow> pyfloat \<Rightarrow> pyerror + bool" where
  "rowEqual row1 row2 epsilon =
     (case collect_list (map (\<lambda>(lhs, rhs). compare lhs rhs epsilon) (zip row1 row2)) of
        Inl e \<Rightarrow> Inl e
      | Inr bs \<Rightarrow> Inr (list_all (\<lambda>b. b) bs))"

text \<open>
  The tolerance rule as the specification words it, read in double arithmetic (the
  subtraction and the product each rounded to the nearest double):
  \<open>|expected - actual| \<le> epsilon * max(|expected|, |actual|)\<close>.
\<close>

definition rel_tol_rule :: "pyfloat \<Rightarrow> pyfloat \<Rightarrow> pyfloat \<Rightarrow> bool" where
  "rel_tol_rule expected actual epsilon =
     fle (fabs (fsub expected actual)) (fmul epsilon (fmax (fabs expected) (fabs actual)))"

text \<open>The number a value denotes, when it is a finite number at all.\<close>

definition exact_value :: "pyvalue \<Rightarrow> rat option" where
  "exact_value v = (case numeric v of Some (Fin r) \<Rightarrow> Some r | _ \<Rightarrow> None)"

section \<open>DataFrames\<close>

text \<open>
  The part of PySpark the validation script uses.  \<^verbatim>\<open>typeName()\<close> of a data type is its
  class name without the suffix \<^verbatim>\<open>Type\<close>, in lower case; \<^verbatim>\<open>NullType\<close> answers \<^verbatim>\<open>void\<close>.
\<close>

datatype DataType =
    NullType
  | BooleanType
  | ByteType
  | ShortType
  | IntegerType
  | LongType
  | FloatType
  | DoubleType
  | DecimalType nat nat
  | StringType

fun typeName :: "DataType \<Rightarrow> string" where
  "typeName NullType = ''void''"
| "typeName BooleanType = ''boolean''"
| "typeName ByteType = ''byte''"
| "typeName ShortType = ''short''"
| "typeName IntegerType = ''integer''"
| "typeName LongType = ''long''"
| "typeName FloatType = ''float''"
| "typeName DoubleType = ''double''"
| "typeName (DecimalType _ _) = ''decimal''"
| "typeName StringType = ''string''"

record StructField =
  name :: string
  dataType :: DataType

record DataFrame =
  schema :: "StructField list"
  rows :: "row list"

definition count :: "DataFrame \<Rightarrow> nat" where
  "count df = length (rows df)"

text \<open>\<^verbatim>\<open>df.drop(*cols)\<close>: the named columns leave the schema and every row; a name that is
  not a column is ignored.\<close>

definition drop :: "string list \<Rightarrow> DataFrame \<Rightarrow> DataFrame" where
  "drop cols df =
     \<lparr>schema = filter (\<lambda>field. name field \<notin> set cols) (schema df),
      rows = map (\<lambda>r. map snd (filter (\<lambda>(field, v). name field \<notin> set cols) (zip (schema df) r)))
               (rows df)\<rparr>"

subsection \<open>The engine's sort\<close>

text \<open>
  \<^verbatim>\<open>df.sort(cols)\<close> orders the rows ascending by the listed columns, the first column most
  significant, nulls first; on doubles NaN is the greatest value.  Within one column all
  non-null values have the column's type.
\<close>

fun str_lt :: "string \<Rightarrow> string \<Rightarrow> bool" where
  "str_lt [] [] = False"
| "str_lt [] (_ # _) = True"
| "str_lt (_ # _) [] = False"
| "str_lt (c # cs) (d # ds) =
     ((of_char c :: nat) < of_char d \<or> (c = d \<and> str_lt cs ds))"

fun spark_flt :: "pyfloat \<Rightarrow> pyfloat \<Rightarrow> bool" where
  "spark_flt NaN _ = False"
| "spark_flt _ NaN = True"
| "spark_flt a b = flt a b"

fun spark_lt :: "pyvalue \<Rightarrow> pyvalue \<Rightarrow> bool" where
  "spark_lt VNone VNone = False"
| "spark_lt VNone _ = True"
| "spark_lt _ VNone = False"
| "spark_lt (VBool a) (VBool b) = (\<not> a \<and> b)"
| "spark_lt (VInt a) (VInt b) = (a < b)"
| "spark_lt (VFloat a) (VFloat b) = spark_flt a b"
| "spark_lt (VDecimal a) (VDecimal b) = (a < b)"
| "spark_lt (VStr a) (VStr b) = str_lt a b"
| "spark_lt _ _ = False"

fun key_lt :: "pyvalue list \<Rightarrow> pyvalue list \<Rightarrow> bool" where
  "key_lt (x # xs) (y # ys) = (spark_lt x y \<or> (\<not> spark_lt y x \<and> key_lt xs ys))"
| "key_lt _ _ = False"

definition row_key :: "string list \<Rightarrow> StructField list \<Rightarrow> row \<Rightarrow> pyvalue list" where
  "row_key cols sch r =
     concat (map (\<lambda>c. map snd (filter (\<lambda>(field, v). name field = c) (zip sch r))) cols)"

fun insert_row :: "(row \<Rightarrow> pyvalue list) \<Rightarrow> row \<Rightarrow> row list \<Rightarrow> row list" where
  "insert_row key r [] = [r]"
| "insert_row key r (x # xs) =
     (if key_lt (key r) (key x) then r # x # xs else x # insert_row key r xs)"

definition sort :: "string list \<Rightarrow> DataFrame \<Rightarrow> DataFrame" where
  "sort cols df = df\<lparr>rows := foldr (insert_row (row_key cols (schema df))) (rows df) []\<rparr>"

section \<open>Dataset loader and orderer\<close>

definition SKIP_QUERIES :: "string list" where
  "SKIP_QUERIES = [''query15_part1'', ''query15_part3'']"

definition SKIP_COLUMNS :: "string \<Rightarrow> string list option" where
  "SKIP_COLUMNS = [''query18'' \<mapsto> [''o_orderkey'']]"

text \<open>What the script prints; the elapsed seconds of a collect are left out.\<close>

datatype printed =
    Collecting
  | Collected nat
  | RowDiffers nat row row
  | Processed nat
  | Aborting int
  | ResultsMatch
  | ThereWereErrors int
  | CountsDoNotMatch nat nat

text \<open>
  \<^verbatim>\<open>
  non_float_cols = [col(field.name) for field in df.schema.fields
                    if field.dataType.typeName() not in (FloatType.typeName(), DoubleType.typeName())]
  float_cols = [col(field.name) for field in df.schema.fields
                if field.dataType.typeName() in (FloatType.typeName(), DoubleType.typeName())]
  \<close>
\<close>

definition non_float_cols :: "DataFrame \<Rightarrow> string list" where
  "non_float_cols df =
     map name (filter (\<lambda>field. typeName (dataType field)
                          \<notin> set [typeName FloatType, typeName DoubleType]) (schema df))"

definition float_cols :: "DataFrame \<Rightarrow> string list" where
  "float_cols df =
     map name (filter (\<lambda>field. typeName (dataType field)
                          \<in> set [typeName FloatType, typeName DoubleType]) (schema df))"

text \<open>The column list handed to \<^verbatim>\<open>df.sort\<close>.\<close>

definition sort_key :: "DataFrame \<Rightarrow> string list" where
  "sort_key df = non_float_cols df @ float_cols df"

definition skip_columns :: "string \<Rightarrow> DataFrame \<Rightarrow> DataFrame" where
  "skip_columns query_name df =
     (case SKIP_COLUMNS query_name of Some cols \<Rightarrow> drop cols df | None \<Rightarrow> df)"

definition collect_results :: "DataFrame \<Rightarrow> string \<Rightarrow> bool \<Rightarrow> bool \<Rightarrow> printed list \<times> row list" where
  "collect_results df query_name ignore_ordering use_iterator =
     (let df1 = skip_columns query_name df;
          df2 = (if ignore_ordering then sort (sort_key df1) df1 else df1)
      in if use_iterator then ([], rows df2)
         else ([Collecting, Collected (length (rows df2))], rows df2))"

section \<open>Query comparison driver\<close>

text \<open>\<^verbatim>\<open>spark_session.read.format(fmt).load(path)\<close>: the DataFrame stored at a path in a
  format, if there is one; loading a path that holds none raises.\<close>

type_synonym SparkSession = "string \<Rightarrow> string \<Rightarrow> DataFrame option"

text \<open>
  \<^verbatim>\<open>
  while i < count1 and errors < max_errors:
      lhs = next(result1)
      rhs = next(result2)
      if not rowEqual(list(lhs), list(rhs), epsilon):
          print(f"Row {i}: \n{list(lhs)}\n{list(rhs)}\n")
          errors += 1
      i += 1
  \<close>
  The two iterators are the rows not yet consumed.
\<close>

fun compare_loop ::
  "row list \<Rightarrow> row list \<Rightarrow> nat \<Rightarrow> nat \<Rightarrow> int \<Rightarrow> int \<Rightarrow> pyfloat \<Rightarrow> printed list
     \<Rightarrow> pyerror + (printed list \<times> nat \<times> int)" where
  "compare_loop result1 result2 count1 i errors max_errors epsilon out =
     (if i < count1 \<and> errors < max_errors then
        (case result1 of
           [] \<Rightarrow> Inl StopIteration
         | lhs # rest1 \<Rightarrow>
             (case result2 of
                [] \<Rightarrow> Inl StopIteration
              | rhs # rest2 \<Rightarrow>
                  (case rowEqual lhs rhs epsilon of
                     Inl e \<Rightarrow> Inl e
                   | Inr equal \<Rightarrow>
                       if \<not> equal
                       then compare_loop rest1 rest2 count1 (i + 1) (errors + 1) max_errors
                              epsilon (out @ [RowDiffers i lhs rhs])
                       else compare_loop rest1 rest2 count1 (i + 1) errors max_errors
                              epsilon out)))
      else Inr (out, i, errors))"

definition compare_results ::
  "SparkSession \<Rightarrow> string \<Rightarrow> string \<Rightarrow> string \<Rightarrow> string \<Rightarrow> bool \<Rightarrow> string \<Rightarrow> bool \<Rightarrow> int
     \<Rightarrow> pyfloat \<Rightarrow> pyerror + (printed list \<times> bool)" where
  "compare_results spark_session input1 input2 input1_format input2_format ignore_ordering
       query_name use_iterator max_errors epsilon =
     (if query_name \<in> set SKIP_QUERIES then Inr ([], True)
      else
        case spark_session input1_format input1 of
          None \<Rightarrow> Inl AnalysisException
        | Some df1 \<Rightarrow>
            (case spark_session input2_format input2 of
               None \<Rightarrow> Inl AnalysisException
             | Some df2 \<Rightarrow>
                 let count1 = count df1; count2 = count df2 in
                 if count1 = count2 then
                   let (out1, result1) = collect_results df1 query_name ignore_ordering use_iterator;
                       (out2, result2) = collect_results df2 query_name ignore_ordering use_iterator
                   in case compare_loop result1 result2 count1 0 0 max_errors epsilon (out1 @ out2) of
                        Inl e \<Rightarrow> Inl e
                      | Inr (out, i, errors) \<Rightarrow>
                          if errors = max_errors
                          then Inr (out @ [Processed i, Aborting max_errors], False)
                          else if errors = 0
                          then Inr (out @ [Processed i, ResultsMatch], True)
                          else Inr (out @ [Processed i, ThereWereErrors errors], False)
                 else Inr ([CountsDoNotMatch count1 count2], False)))"

text \<open>Vocabulary for the properties of the driver: a printed row difference, a pair of
  rows that the row comparator rejects, and the rows a DataFrame is collected to.\<close>

fun is_row_diff :: "printed \<Rightarrow> bool" where
  "is_row_diff (RowDiffers _ _ _) = True"
| "is_row_diff _ = False"


definition collected :: "DataFrame \<Rightarrow> string \<Rightarrow> bool \<Rightarrow> row list" where
  "collected df query_name ignore_ordering =
     snd (collect_results df query_name ignore_ordering True)"

text \<open>
  The sort key as the specification words it: the columns that are neither floating-point
  nor decimal first, then the floating-point and decimal columns, each group in schema order.
\<close>

fun is_floating_or_decimal :: "DataType \<Rightarrow> bool" where
  "is_floating_or_decimal FloatType = True"
| "is_floating_or_decimal DoubleType = True"
| "is_floating_or_decimal (DecimalType _ _) = True"
| "is_floating_or_decimal _ = False"

definition spec_sort_key :: "DataFrame \<Rightarrow> string list" where
  "spec_sort_key df =
     map name (filter (\<lambda>field. \<not> is_floating_or_decimal (dataType field)) (schema df))
     @ map name (filter (\<lambda>field. is_floating_or_decimal (dataType field)) (schema df))"

section \<open>Status reconciler\<close>

text \<open>A parsed JSON document; an object keeps its members in order, as a Python dict does.\<close>

datatype json =
    JNull
  | JBool bool
  | JNum rat
  | JStr string
  | JArr "json list"
  | JObj "(string \<times> json) list"

text \<open>\<^verbatim>\<open>d[k] = v\<close> on a dict: an existing key keeps its place, a new key goes last.\<close>

fun dict_set :: "string \<Rightarrow> json \<Rightarrow> (string \<times> json) list \<Rightarrow> (string \<times> json) list" where
  "dict_set k v [] = [(k, v)]"
| "dict_set k v ((k', v') # kvs) =
     (if k' = k then (k, v) # kvs else (k', v') # dict_set k v kvs)"

fun startswith :: "string \<Rightarrow> string \<Rightarrow> bool" where
  "startswith _ [] = True"
| "startswith [] (_ # _) = False"
| "startswith (c # s) (d # t) = (c = d \<and> startswith s t)"

fun substring_of :: "string \<Rightarrow> string \<Rightarrow> bool" where
  "substring_of t [] = (t = [])"
| "substring_of t (c # s) = (startswith (c # s) t \<or> substring_of t s)"

text \<open>\<^verbatim>\<open>needle in container\<close> for a string needle: a substring test on a string, membership
  in a list, key membership in a dict; any other container raises.\<close>

fun str_in :: "string \<Rightarrow> json \<Rightarrow> pyerror + bool" where
  "str_in t (JStr s) = Inr (substring_of t s)"
| "str_in t (JArr xs) = Inr (JStr t \<in> set xs)"
| "str_in t (JObj kvs) = Inr (t \<in> fst ` set kvs)"
| "str_in t _ = Inl TypeError"

text \<open>
  The body of the first \<^verbatim>\<open>with\<close> block of \<^verbatim>\<open>update_summary\<close>:
  \<^verbatim>\<open>
  summary = json.load(f)
  if query_name in unmatch_queries:
      if 'Completed' in summary['queryStatus'] or 'CompletedWithTaskFailures' in summary['queryStatus']:
          summary['queryValidationStatus'] = ['Fail']
      else:
          summary['queryValidationStatus'] = ['NotAttempted']
  else:
      summary['queryValidationStatus'] = ['Pass']
  \<close>
  Subscripting a document that is not an object raises.
\<close>

definition set_validation_status :: "string \<Rightarrow> string list \<Rightarrow> json \<Rightarrow> pyerror + json" where
  "set_validation_status query_name unmatch_queries summary =
     (case summary of
        JObj kvs \<Rightarrow>
          if query_name \<in> set unmatch_queries then
            (case map_of kvs ''queryStatus'' of
               None \<Rightarrow> Inl KeyError
             | Some status \<Rightarrow>
                 (case str_in ''Completed'' status of
                    Inl e \<Rightarrow> Inl e
                  | Inr c1 \<Rightarrow>
                      (case (if c1 then Inr True
                             else str_in ''CompletedWithTaskFailures'' status) of
                         Inl e \<Rightarrow> Inl e
                       | Inr completed \<Rightarrow>
                           if completed
                           then Inr (JObj (dict_set ''queryValidationStatus''
                                             (JArr [JStr ''Fail'']) kvs))
                           else Inr (JObj (dict_set ''queryValidationStatus''
                                             (JArr [JStr ''NotAttempted'']) kvs)))))
          else Inr (JObj (dict_set ''queryValidationStatus'' (JArr [JStr ''Pass'']) kvs))
      | _ \<Rightarrow> Inl TypeError)"

text \<open>
  The file system as \<^verbatim>\<open>update_summary\<close> sees it: which paths exist, what a glob pattern
  matches, and the JSON document each file holds.  Rewriting a file changes its document
  and nothing else.
\<close>

record filesystem =
  path_exists :: "string \<Rightarrow> bool"
  glob :: "string \<Rightarrow> string list"
  files :: "string \<Rightarrow> json option"

definition summary_wildcard :: "string \<Rightarrow> string \<Rightarrow> string" where
  "summary_wildcard prefix query_name = prefix @ ''/*'' @ query_name @ ''-*.json''"

text \<open>The loop over \<^verbatim>\<open>query_dict.keys()\<close>; an exception leaves the files rewritten so far.\<close>

fun update_loop ::
  "filesystem \<Rightarrow> string \<Rightarrow> string list \<Rightarrow> string list \<Rightarrow> pyerror option \<times> filesystem" where
  "update_loop fs prefix unmatch_queries [] = (None, fs)"
| "update_loop fs prefix unmatch_queries (query_name # rest) =
     (let file_glob = glob fs (summary_wildcard prefix query_name) in
      if length file_glob > 1 then (Some (MoreThanOneSummary query_name), fs)
      else if length file_glob = 0 then (Some (NoSummary query_name), fs)
      else
        let filename = hd file_glob in
        case files fs filename of
          None \<Rightarrow> (Some FileNotFoundError, fs)
        | Some summary \<Rightarrow>
            (case set_validation_status query_name unmatch_queries summary of
               Inl e \<Rightarrow> (Some e, fs)
             | Inr summary' \<Rightarrow>
                 update_loop (fs\<lparr>files := (files fs)(filename \<mapsto> summary')\<rparr>) prefix
                   unmatch_queries rest))"

definition update_summary ::
  "filesystem \<Rightarrow> (string \<times> string) list \<Rightarrow> string \<Rightarrow> string list
     \<Rightarrow> pyerror option \<times> filesystem" where
  "update_summary fs query_dict prefix unmatch_queries =
     (if \<not> path_exists fs prefix then (Some SummaryFolderMissing, fs)
      else update_loop fs prefix unmatch_queries (map fst query_dict))"

text \<open>The validation status the specification assigns to a query, for a run status that is
  a list of status words.\<close>

definition expected_status :: "string \<Rightarrow> string list \<Rightarrow> json list \<Rightarrow> string" where
  "expected_status query_name unmatch_queries status =
     (if query_name \<in> set unmatch_queries
      then (if JStr ''Completed'' \<in> set status \<or> JStr ''CompletedWithTaskFailures'' \<in> set status
            then ''Fail'' else ''NotAttempted'')
      else ''Pass'')"

section \<open>Example data\<close>

text \<open>Two results of fifteen rows that differ in every row, an empty result, the columns of
  a lineitem projection, a session that holds one result on each side of \<^verbatim>\<open>query1\<close>, and a
  folder of three summary files.\<close>

definition fifteen_left :: DataFrame where
  "fifteen_left = \<lparr>schema = [\<lparr>name = ''n'', dataType = LongType\<rparr>],
     rows = [[VInt 1], [VInt 2], [VInt 3], [VInt 4], [VInt 5], [VInt 6], [VInt 7], [VInt 8],
             [VInt 9], [VInt 10], [VInt 11], [VInt 12], [VInt 13], [VInt 14], [VInt 15]]\<rparr>"


definition two_sides :: "DataFrame \<Rightarrow> DataFrame \<Rightarrow> SparkSession" where
  "two_sides left right fmt path =
     (if path = ''left/query1'' then Some left
      else if path = ''right/query1'' then Some right else None)"

definition no_rows :: DataFrame where
  "no_rows = \<lparr>schema = [\<lparr>name = ''n'', dataType = LongType\<rparr>], rows = []\<rparr>"

definition lineitem_columns :: DataFrame where
  "lineitem_columns =
     \<lparr>schema = [\<lparr>name = ''l_quantity'', dataType = DecimalType 12 2\<rparr>,
                \<lparr>name = ''l_discount'', dataType = DoubleType\<rparr>,
                \<lparr>name = ''l_orderkey'', dataType = LongType\<rparr>],
      rows = []\<rparr>"

definition summary_folder :: filesystem where
  "summary_folder =
     \<lparr>path_exists = (\<lambda>p. p = ''summary''),
      glob = (\<lambda>pattern.
        if pattern = ''summary/*query1-*.json'' then [''summary/power-query1-7.json'']
        else if pattern = ''summary/*query2-*.json'' then [''summary/power-query2-7.json'']
        else if pattern = ''summary/*query3-*.json'' then [''summary/power-query3-7.json'']
        else []),
      files = (\<lambda>f.
        if f = ''summary/power-query1-7.json''
        then Some (JObj [(''query'', JStr ''query1''), (''queryStatus'', JArr [JStr ''Completed''])])
        else if f = ''summary/power-query2-7.json''
        then Some (JObj [(''query'', JStr ''query2''), (''queryStatus'', JArr [JStr ''Failed''])])
        else if f = ''summary/power-query3-7.json''
        then Some (JObj [(''query'', JStr ''query3''), (''queryStatus'', JArr [JStr ''Failed''])])
        else None)\<rparr>"

section \<open>Properties of rounding\<close>

lemma rhe_bounds: "\<lfloor>x\<rfloor> \<le> round_half_even x \<and> round_half_even x \<le> \<lfloor>x\<rfloor> + 1"
  by (simp add: round_half_even_def Let_def)

lemma rhe_mono: "x \<le> y \<Longrightarrow> round_half_even x \<le> round_half_even y"
proof -
  assume le: "x \<le> y"
  then have f: "\<lfloor>x\<rfloor> \<le> \<lfloor>y\<rfloor>" by (rule floor_mono)
  show ?thesis
  proof (cases "\<lfloor>x\<rfloor> = \<lfloor>y\<rfloor>")
    case True
    then have "x - of_int \<lfloor>x\<rfloor> \<le> y - of_int \<lfloor>y\<rfloor>" using le by simp
    with True show ?thesis
      by (auto simp add: round_half_even_def Let_def)
  next
    case False
    with f have "\<lfloor>x\<rfloor> + 1 \<le> \<lfloor>y\<rfloor>" by simp
    with rhe_bounds [of x] rhe_bounds [of y] show ?thesis by linarith
  qed
qed

lemma rhe_of_int: "round_half_even (of_int n) = n"
  by (simp add: round_half_even_def)

lemma rhe_ge: "of_int n \<le> x \<Longrightarrow> n \<le> round_half_even x"
  using rhe_mono [of "of_int n" x] by (simp add: rhe_of_int)

lemma rhe_le: "x \<le> of_int n \<Longrightarrow> round_half_even x \<le> n"
  using rhe_mono [of x "of_int n"] by (simp add: rhe_of_int)

lemma bitlen_powi:
  assumes "0 < m"
  shows "(2::rat) powi (bitlen m - 1) \<le> of_int m \<and> of_int m < (2::rat) powi (bitlen m)"
proof -
  from assms have b: "1 \<le> bitlen m" by (auto simp: bitlen_alt_def)
  from bitlen_bounds [OF assms] have "2 ^ nat (bitlen m - 1) \<le> m" and "m < 2 ^ nat (bitlen m)"
    by simp_all
  then have "(of_int (2 ^ nat (bitlen m - 1)) :: rat) \<le> of_int m"
    and "(of_int m :: rat) < of_int (2 ^ nat (bitlen m))"
    by (simp_all only: of_int_le_iff of_int_less_iff)
  then show ?thesis
    using b by (simp add: power_int_nonneg_exp)
qed

lemma ilog2_bounds:
  assumes "0 < a"
  shows "2 powi (ilog2 a) \<le> a \<and> a < 2 powi (ilog2 a + 1)"
proof -
  obtain p d where q: "quotient_of a = (p, d)" by (cases "quotient_of a")
  then have d: "0 < d" by (rule quotient_of_denom_pos)
  from q have a: "a = of_int p / of_int d" by (rule quotient_of_div)
  with assms d have p: "0 < p" by (simp add: zero_less_divide_iff)
  let ?k = "bitlen p - bitlen d"
  from bitlen_powi [OF p] have p1: "(2::rat) powi (bitlen p - 1) \<le> of_int p"
    and p2: "of_int p < (2::rat) powi (bitlen p)" by simp_all
  from bitlen_powi [OF d] have d1: "(2::rat) powi (bitlen d - 1) \<le> of_int d"
    and d2: "of_int d < (2::rat) powi (bitlen d)" by simp_all
  have pos: "(0::rat) < 2 powi n" for n by simp
  have "a < 2 powi (bitlen p) / 2 powi (bitlen d - 1)"
    unfolding a using p2 d1 d p pos [of "bitlen d - 1"]
    by (intro frac_less) simp_all
  also have "\<dots> = 2 powi (bitlen p - (bitlen d - 1))"
    by (simp add: power_int_diff)
  also have "bitlen p - (bitlen d - 1) = ?k + 1"
    by simp
  finally have up: "a < 2 powi (?k + 1)" .
  have "2 powi (bitlen p - 1) / 2 powi (bitlen d) < a"
    unfolding a using p1 d2 d p pos [of "bitlen p - 1"]
    by (intro frac_less2) simp_all
  moreover have "(2::rat) powi (bitlen p - 1) / 2 powi (bitlen d) = 2 powi (?k - 1)"
  proof -
    have "(2::rat) powi (bitlen p - 1) / 2 powi (bitlen d) = 2 powi (bitlen p - 1 - bitlen d)"
      by (simp add: power_int_diff)
    also have "bitlen p - 1 - bitlen d = ?k - 1" by simp
    finally show ?thesis .
  qed
  ultimately have lo: "2 powi (?k - 1) < a" by simp
  show ?thesis
    using up lo by (auto simp add: ilog2_def Let_def q)
qed

lemma fle_trans: "fle a b \<Longrightarrow> fle b c \<Longrightarrow> fle a c"
  by (cases a; cases b; cases c) simp_all

lemma ilog2_mono:
  assumes "0 < a" and "a \<le> b"
  shows "ilog2 a \<le> ilog2 b"
proof (rule ccontr)
  assume "\<not> ilog2 a \<le> ilog2 b"
  then have "ilog2 b + 1 \<le> ilog2 a" by simp
  then have "(2::rat) powi (ilog2 b + 1) \<le> 2 powi (ilog2 a)"
    by (intro power_int_increasing) simp_all
  also have "\<dots> \<le> a" using ilog2_bounds [OF assms(1)] by simp
  also have "a \<le> b" by fact
  also have "b < 2 powi (ilog2 b + 1)" using ilog2_bounds [of b] assms by simp
  finally show False by simp
qed

lemma round_magnitude_nearest:
  "round_magnitude a =
     (if a = 0 then Fin 0 else if 2 powi 1024 \<le> nearest a then PInf else Fin (nearest a))"
  by (simp add: round_magnitude_def)

lemma quantum_pos: "0 < quantum a"
  by (simp add: quantum_def)

lemma nearest_nonneg: "0 \<le> a \<Longrightarrow> 0 \<le> nearest a"
proof -
  assume "0 \<le> a"
  then have "of_int 0 \<le> a / quantum a" using quantum_pos [of a] by simp
  then have "0 \<le> round_half_even (a / quantum a)" by (rule rhe_ge)
  then show ?thesis using quantum_pos [of a] by (simp add: nearest_def)
qed

lemma nearest_mono:
  assumes "0 < a" and "a \<le> b"
  shows "nearest a \<le> nearest b"
proof -
  let ?ea = "max (ilog2 a) (- 1022)" and ?eb = "max (ilog2 b) (- 1022)"
  have b: "0 < b" using assms by simp
  have le: "?ea \<le> ?eb" using ilog2_mono [OF assms] by simp
  show ?thesis
  proof (cases "?ea = ?eb")
    case True
    then have q: "quantum a = quantum b" by (simp add: quantum_def)
    have "a / quantum b \<le> b / quantum b"
      using assms(2) quantum_pos [of b] by (simp add: divide_right_mono)
    then have "round_half_even (a / quantum b) \<le> round_half_even (b / quantum b)"
      by (rule rhe_mono)
    then show ?thesis
      using quantum_pos [of b] by (simp add: nearest_def q mult_right_mono)
  next
    case False
    with le have lt: "?ea + 1 \<le> ?eb" by simp
    then have eb: "?eb = ilog2 b" by simp
    have "a < 2 powi (ilog2 a + 1)" using ilog2_bounds [OF assms(1)] by simp
    also have "\<dots> \<le> 2 powi (?ea + 1)" by (intro power_int_increasing) simp_all
    finally have a_up: "a \<le> 2 powi (?ea + 1)" by simp
    have "2 powi (?ea + 1) / quantum a = (2::rat) powi (?ea + 1 - (?ea - 52))"
      unfolding quantum_def by (rule power_int_diff [symmetric]) simp
    also have "?ea + 1 - (?ea - 52) = 53" by simp
    finally have r53: "2 powi (?ea + 1) / quantum a = of_int (2 ^ 53)" by simp
    have "a / quantum a \<le> 2 powi (?ea + 1) / quantum a"
      using a_up quantum_pos [of a] by (simp add: divide_right_mono)
    then have "round_half_even (a / quantum a) \<le> 2 ^ 53"
      unfolding r53 by (rule rhe_le)
    then have "(of_int (round_half_even (a / quantum a)) :: rat) \<le> of_int (2 ^ 53)"
      by (simp only: of_int_le_iff)
    from mult_right_mono [OF this, of "quantum a"] quantum_pos [of a]
    have "nearest a \<le> of_int (2 ^ 53) * quantum a"
      unfolding nearest_def by (simp only: less_imp_le)
    also have "of_int (2 ^ 53) * quantum a = 2 powi (?ea + 1)"
      using r53 quantum_pos [of a] by (simp add: field_simps)
    finally have na: "nearest a \<le> 2 powi (?ea + 1)" .
    have b_lo: "2 powi ?eb \<le> b" using ilog2_bounds [OF b] eb by simp
    have "2 powi ?eb / quantum b = (2::rat) powi (?eb - (?eb - 52))"
      unfolding quantum_def by (rule power_int_diff [symmetric]) simp
    also have "?eb - (?eb - 52) = 52" by simp
    finally have r52: "2 powi ?eb / quantum b = of_int (2 ^ 52)" by simp
    have "2 powi ?eb / quantum b \<le> b / quantum b"
      using b_lo quantum_pos [of b] by (simp add: divide_right_mono)
    then have "2 ^ 52 \<le> round_half_even (b / quantum b)"
      unfolding r52 by (rule rhe_ge)
    then have "(of_int (2 ^ 52) :: rat) \<le> of_int (round_half_even (b / quantum b))"
      by (simp only: of_int_le_iff)
    from mult_right_mono [OF this, of "quantum b"] quantum_pos [of b]
    have "of_int (2 ^ 52) * quantum b \<le> nearest b"
      unfolding nearest_def by (simp only: less_imp_le)
    moreover have "of_int (2 ^ 52) * quantum b = 2 powi ?eb"
      using r52 quantum_pos [of b] by (simp add: field_simps)
    ultimately have nb: "2 powi ?eb \<le> nearest b" by simp
    have "(2::rat) powi (?ea + 1) \<le> 2 powi ?eb"
      using lt by (intro power_int_increasing) simp_all
    with na nb show ?thesis by linarith
  qed
qed

lemma round_magnitude_mono:
  assumes "0 \<le> a" and "a \<le> b"
  shows "fle (round_magnitude a) (round_magnitude b)"
proof (cases "a = 0")
  case True
  then show ?thesis
    using assms nearest_nonneg [of b] by (simp add: round_magnitude_nearest)
next
  case False
  with assms have "0 < a" by simp
  from nearest_mono [OF this assms(2)] False assms show ?thesis
    by (auto simp add: round_magnitude_nearest)
qed

lemma fabs_round_magnitude: "0 \<le> a \<Longrightarrow> fabs (round_magnitude a) = round_magnitude a"
  using nearest_nonneg [of a] by (simp add: round_magnitude_nearest)

lemma fabs_fneg: "fabs (fneg v) = fabs v"
  by (cases v) simp_all

lemma fabs_round_double: "fabs (round_double x) = round_magnitude \<bar>x\<bar>"
  by (simp add: round_double_def fabs_fneg fabs_round_magnitude)

lemma round_magnitude_zero: "round_magnitude 0 = Fin 0"
  by (simp add: round_magnitude_def)

lemma fle_zero_round_magnitude: "0 \<le> a \<Longrightarrow> fle (Fin 0) (round_magnitude a)"
  using round_magnitude_mono [of 0 a] by (simp add: round_magnitude_zero)

lemma round_magnitude_le_zero:
  "0 \<le> a \<Longrightarrow> fle (round_magnitude a) (Fin 0) \<Longrightarrow> round_magnitude a = Fin 0"
  using nearest_nonneg [of a] by (auto simp add: round_magnitude_nearest split: if_splits)

section \<open>Properties of the value comparator\<close>

lemma rel_tol_rule_finite:
  assumes "0 \<le> eps"
  shows "rel_tol_rule (Fin x) (Fin y) (Fin eps)
           = fle (round_magnitude \<bar>x - y\<bar>) (round_magnitude (eps * max \<bar>x\<bar> \<bar>y\<bar>))"
proof -
  have "0 \<le> eps * max \<bar>x\<bar> \<bar>y\<bar>" using assms by simp
  then have "round_double (eps * max \<bar>x\<bar> \<bar>y\<bar>) = round_magnitude (eps * max \<bar>x\<bar> \<bar>y\<bar>)"
    by (simp add: round_double_def)
  moreover have "fmax (Fin \<bar>x\<bar>) (Fin \<bar>y\<bar>) = Fin (max \<bar>x\<bar> \<bar>y\<bar>)"
    by (simp add: fmax_def max_def)
  ultimately show ?thesis
    by (simp add: rel_tol_rule_def fabs_round_double)
qed

lemma isclose_finite:
  assumes "0 \<le> eps"
  shows "isclose (Fin e) (Fin a) (Fin eps) (Fin 0) = Inr (rel_tol_rule (Fin e) (Fin a) (Fin eps))"
proof -
  let ?D = "round_magnitude \<bar>e - a\<bar>"
  let ?Te = "round_magnitude (eps * \<bar>e\<bar>)" and ?Ta = "round_magnitude (eps * \<bar>a\<bar>)"
  let ?T = "round_magnitude (eps * max \<bar>e\<bar> \<bar>a\<bar>)"
  have d: "fabs (round_double (a - e)) = ?D"
    by (simp add: fabs_round_double abs_minus_commute)
  have te: "fabs (round_double (eps * e)) = ?Te" and ta: "fabs (round_double (eps * a)) = ?Ta"
    using assms by (simp_all add: fabs_round_double abs_mult)
  have nn: "0 \<le> eps * \<bar>e\<bar>" "0 \<le> eps * \<bar>a\<bar>" "0 \<le> eps * max \<bar>e\<bar> \<bar>a\<bar>"
    using assms by simp_all
  have le_e: "fle ?Te ?T" and le_a: "fle ?Ta ?T"
    using assms by (simp_all add: round_magnitude_mono mult_left_mono)
  have pick: "?T = ?Te \<or> ?T = ?Ta"
    by (simp add: max_def)
  have disj: "(fle ?D ?Ta \<or> fle ?D ?Te \<or> fle ?D (Fin 0)) = fle ?D ?T"
  proof
    assume "fle ?D ?Ta \<or> fle ?D ?Te \<or> fle ?D (Fin 0)"
    then show "fle ?D ?T"
    proof (elim disjE)
      assume "fle ?D ?Ta"
      then show ?thesis using le_a by (rule fle_trans)
    next
      assume "fle ?D ?Te"
      then show ?thesis using le_e by (rule fle_trans)
    next
      assume "fle ?D (Fin 0)"
      then show ?thesis using fle_zero_round_magnitude [OF nn(3)] by (rule fle_trans)
    qed
  next
    assume "fle ?D ?T"
    with pick show "fle ?D ?Ta \<or> fle ?D ?Te \<or> fle ?D (Fin 0)" by auto
  qed
  have rule: "rel_tol_rule (Fin e) (Fin a) (Fin eps) = fle ?D ?T"
    using assms by (rule rel_tol_rule_finite)
  show ?thesis
  proof (cases "e = a")
    case True
    then have "?D = Fin 0" by (simp add: round_magnitude_zero)
    then have "fle ?D ?T" using fle_zero_round_magnitude [OF nn(3)] by simp
    then have "rel_tol_rule (Fin e) (Fin a) (Fin eps)" by (simp only: rule)
    moreover have "isclose (Fin e) (Fin a) (Fin eps) (Fin 0) = Inr True"
      using True assms by (simp add: isclose_def feq_def)
    ultimately show ?thesis by simp
  next
    case False
    then show ?thesis
      using assms by (simp add: isclose_def feq_def Let_def d te ta disj rule)
  qed
qed

lemma isclose_infinite:
  assumes "\<not> flt eps (Fin 0)" and "isinf x \<or> isinf y"
  shows "isclose x y eps (Fin 0) = Inr (x = y)"
  using assms by (cases x; cases y) (simp_all add: isclose_def feq_def)

lemma isclose_one_nan:
  assumes "\<not> flt eps (Fin 0)" and "isnan x \<noteq> isnan y"
  shows "isclose x y eps (Fin 0) = Inr False"
  using assms by (cases x; cases y) (simp_all add: isclose_def feq_def)


text \<open>
  C1 (amended).  For two floats that are not both NaN and neither of which is infinite, and
  a finite tolerance \<open>epsilon \<ge> 0\<close>, \<open>compare\<close> returns true exactly when
  \<open>|expected - actual| \<le> epsilon * max(|expected|, |actual|)\<close> holds in double arithmetic,
  that is, with the difference and the product each rounded to the nearest double.  When one
  of the two is infinite, \<open>compare\<close> returns true exactly when both are the same infinity.
  With \<open>epsilon = 1e-5\<close>, 1.0 and 1.0000099999 compare equal, 1.0 and 1.0000200001 do not
  (each literal denotes the double nearest to it).
\<close>

theorem compare_float_relative_tolerance:
  "0 \<le> eps \<Longrightarrow>
     (\<not> isinf e \<and> \<not> isinf a \<and> \<not> (isnan e \<and> isnan a) \<longrightarrow>
        compare (VFloat e) (VFloat a) (Fin eps) = Inr (rel_tol_rule e a (Fin eps)))
   \<and> rel_tol_rule (Fin x) (Fin y) (Fin eps)
       = fle (round_magnitude \<bar>x - y\<bar>) (round_magnitude (eps * max \<bar>x\<bar> \<bar>y\<bar>))
   \<and> (isinf e \<or> isinf a \<longrightarrow> compare (VFloat e) (VFloat a) (Fin eps) = Inr (e = a))
   \<and> compare (VFloat (round_double 1)) (VFloat (round_double (10000099999 / 10000000000)))
        (round_double (1 / 100000)) = Inr True
   \<and> compare (VFloat (round_double 1)) (VFloat (round_double (10000200001 / 10000000000)))
        (round_double (1 / 100000)) = Inr False"
proof (intro conjI impI)
  assume eps: "0 \<le> eps"
  show "rel_tol_rule (Fin x) (Fin y) (Fin eps)
       = fle (round_magnitude \<bar>x - y\<bar>) (round_magnitude (eps * max \<bar>x\<bar> \<bar>y\<bar>))"
    using eps by (rule rel_tol_rule_finite)
  show "compare (VFloat (round_double 1)) (VFloat (round_double (10000099999 / 10000000000)))
        (round_double (1 / 100000)) = Inr True"
    by code_simp
  show "compare (VFloat (round_double 1)) (VFloat (round_double (10000200001 / 10000000000)))
        (round_double (1 / 100000)) = Inr False"
    by code_simp
  {
    assume inf: "isinf e \<or> isinf a"
    then have "\<not> (isnan e \<and> isnan a)" by (cases e; cases a) auto
    moreover have "\<not> flt (Fin eps) (Fin 0)" using eps by simp
    ultimately show "compare (VFloat e) (VFloat a) (Fin eps) = Inr (e = a)"
      using inf by (auto simp add: isclose_infinite)
  }
  {
    assume fin: "\<not> isinf e \<and> \<not> isinf a \<and> \<not> (isnan e \<and> isnan a)"
    show "compare (VFloat e) (VFloat a) (Fin eps) = Inr (rel_tol_rule e a (Fin eps))"
    proof (cases e)
      case (Fin p)
      note e = this
      show ?thesis
      proof (cases a)
        case (Fin q)
        with e eps show ?thesis
          by (simp add: isclose_finite)
      next
        case NaN
        with e eps show ?thesis
          by (simp add: isclose_one_nan rel_tol_rule_def)
      qed (use fin in simp_all)
    next
      case NaN
      with fin eps show ?thesis
        by (cases a) (simp_all add: isclose_one_nan rel_tol_rule_def)
    qed (use fin in simp_all)
  }
qed

theorem compare_float_relative_tolerance_witness:
  "(0::rat) \<le> 1 / 2
   \<and> \<not> isinf (Fin 3) \<and> \<not> isinf (Fin 4) \<and> \<not> (isnan (Fin 3) \<and> isnan (Fin 4))
   \<and> compare (VFloat (Fin 3)) (VFloat (Fin 4)) (Fin (1 / 2)) = Inr True
   \<and> isinf PInf
   \<and> compare (VFloat PInf) (VFloat (Fin 4)) (Fin (1 / 2)) = Inr False"
proof -
  have h: "(0::rat) \<le> 1 / 2" by simp
  have r: "rel_tol_rule (Fin 3) (Fin 4) (Fin (1 / 2))"
    by code_simp
  show ?thesis
    using h r compare_float_relative_tolerance [OF h, of "Fin 3" "Fin 4"]
      compare_float_relative_tolerance [OF h, of PInf "Fin 4"]
    by simp
qed

text \<open>
  C1 as stated fails at an infinity: for +inf against 1.0 with \<open>epsilon = 1e-5\<close> the rule
  \<open>|inf - 1| \<le> 1e-5 * max(inf, 1)\<close> holds (both sides are +inf), and \<open>compare\<close> returns false;
  for +inf against +inf the rule fails (\<open>inf - inf\<close> is NaN), and \<open>compare\<close> returns true.
  Read in exact arithmetic it fails on finite values too: for the doubles 835.0498046875 and
  835.0581552690527 with \<open>epsilon\<close> the double 1e-5, the exact difference is above the exact
  bound, and \<open>compare\<close> returns true, because the rounded difference equals the rounded bound.
\<close>

theorem compare_float_infinity_counterexample:
  "rel_tol_rule PInf (Fin 1) (Fin (1 / 100000))
   \<and> compare (VFloat PInf) (VFloat (Fin 1)) (Fin (1 / 100000)) = Inr False
   \<and> \<not> rel_tol_rule PInf PInf (Fin (1 / 100000))
   \<and> compare (VFloat PInf) (VFloat PInf) (Fin (1 / 100000)) = Inr True
   \<and> round_double (8350498046875 / 10000000000) = Fin (855091 / 1024)
   \<and> round_double (8350581552690527 / 10000000000000)
       = Fin (7345249212699999 / 8796093022208)
   \<and> round_double (1 / 100000) = Fin (5902958103587057 / 590295810358705651712)
   \<and> \<not> \<bar>855091 / 1024 - 7345249212699999 / 8796093022208 :: rat\<bar>
         \<le> 5902958103587057 / 590295810358705651712
             * max \<bar>855091 / 1024\<bar> \<bar>7345249212699999 / 8796093022208\<bar>
   \<and> compare (VFloat (Fin (855091 / 1024))) (VFloat (Fin (7345249212699999 / 8796093022208)))
        (Fin (5902958103587057 / 590295810358705651712)) = Inr True"
proof (intro conjI)
  show "rel_tol_rule PInf (Fin 1) (Fin (1 / 100000))"
    by (simp add: rel_tol_rule_def fmax_def)
  show "compare (VFloat PInf) (VFloat (Fin 1)) (Fin (1 / 100000)) = Inr False"
    by (simp add: isclose_def feq_def)
  show "\<not> rel_tol_rule PInf PInf (Fin (1 / 100000))"
    by (simp add: rel_tol_rule_def fmax_def)
  show "compare (VFloat PInf) (VFloat PInf) (Fin (1 / 100000)) = Inr True"
    by (simp add: isclose_def feq_def)
  show "round_double (8350498046875 / 10000000000) = Fin (855091 / 1024)"
    by code_simp
  show "round_double (8350581552690527 / 10000000000000)
       = Fin (7345249212699999 / 8796093022208)"
    by code_simp
  show "round_double (1 / 100000) = Fin (5902958103587057 / 590295810358705651712)"
    by code_simp
  show "\<not> \<bar>855091 / 1024 - 7345249212699999 / 8796093022208 :: rat\<bar>
         \<le> 5902958103587057 / 590295810358705651712
             * max \<bar>855091 / 1024\<bar> \<bar>7345249212699999 / 8796093022208\<bar>"
    by simp
  show "compare (VFloat (Fin (855091 / 1024))) (VFloat (Fin (7345249212699999 / 8796093022208)))
        (Fin (5902958103587057 / 590295810358705651712)) = Inr True"
    by code_simp
qed

text \<open>
  C2 (amended).  For two values of different scalar types \<open>compare\<close> returns Python's exact
  equality, whatever the tolerance: true exactly when both values are numbers (Boolean,
  Integer, finite FloatingPoint, Decimal) denoting the same number, false otherwise; no
  tolerance is applied to a mixed pair.
\<close>

theorem compare_mixed_types:
  "type_of expected \<noteq> type_of actual \<Longrightarrow>
   compare expected actual epsilon =
     Inr (exact_value expected \<noteq> None \<and> exact_value expected = exact_value actual)"
  by (cases expected; cases actual)
     (auto simp add: exact_value_def feq_def split: pyfloat.splits)

theorem compare_mixed_types_witness:
  "type_of (VInt 1) \<noteq> type_of (VFloat (Fin (10000001 / 10000000)))
   \<and> compare (VInt 1) (VFloat (Fin (10000001 / 10000000))) (Fin (1 / 100000)) = Inr False
   \<and> type_of (VBool True) \<noteq> type_of (VInt 1)
   \<and> compare (VBool True) (VInt 1) (Fin (1 / 100000)) = Inr True"
proof -
  have h1: "type_of (VInt 1) \<noteq> type_of (VFloat (Fin (10000001 / 10000000)))" by simp
  have h2: "type_of (VBool True) \<noteq> type_of (VInt 1)" by simp
  show ?thesis
    using h1 h2 compare_mixed_types [OF h1, of "Fin (1 / 100000)"]
      compare_mixed_types [OF h2, of "Fin (1 / 100000)"]
    by (simp add: exact_value_def)
qed

text \<open>
  C2 as stated fails: the Integer 1 and the FloatingPoint 1.0 have different types and
  compare equal.
\<close>

theorem compare_mixed_types_counterexample:
  "type_of (VInt 1) \<noteq> type_of (VFloat (Fin 1))
   \<and> compare (VInt 1) (VFloat (Fin 1)) (Fin (1 / 100000)) = Inr True"
  by (simp add: feq_def)

text \<open>
  C6.  \<open>compare(NaN, NaN, epsilon)\<close> returns true for every tolerance; for a tolerance that is
  not negative, \<open>compare\<close> of NaN against a finite float returns false, on either side.
\<close>

theorem compare_nan:
  "compare (VFloat NaN) (VFloat NaN) epsilon = Inr True
   \<and> (\<not> flt epsilon (Fin 0) \<longrightarrow>
        compare (VFloat NaN) (VFloat (Fin x)) epsilon = Inr False
      \<and> compare (VFloat (Fin x)) (VFloat NaN) epsilon = Inr False)"
  by (simp add: isclose_one_nan)

theorem compare_nan_witness:
  "\<not> flt (Fin (1 / 100000)) (Fin 0)
   \<and> compare (VFloat NaN) (VFloat NaN) (Fin (1 / 100000)) = Inr True
   \<and> compare (VFloat NaN) (VFloat (Fin 1)) (Fin (1 / 100000)) = Inr False
   \<and> compare (VFloat (Fin 1)) (VFloat NaN) (Fin (1 / 100000)) = Inr False"
proof -
  have h: "\<not> flt (Fin (1 / 100000)) (Fin 0)" by simp
  show ?thesis
    using h compare_nan [of "Fin (1 / 100000)" 1] by simp
qed

section \<open>Properties of the row comparator\<close>

lemma zip_take_lengths: "zip (take (length ys) xs) (take (length xs) ys) = zip xs ys"
proof (induction xs arbitrary: ys)
  case Nil
  then show ?case by simp
next
  case (Cons x xs)
  then show ?case by (cases ys) simp_all
qed


text \<open>
  C10.  \<open>rowEqual\<close> looks at the value pairs up to the length of the shorter row only: its
  result is that of the two rows cut to the common length; against the empty row it is true;
  and when the common prefix compares equal, extra values on either side leave it true.
\<close>

theorem rowEqual_zip_truncation:
  "rowEqual row1 row2 epsilon
     = rowEqual (take (length row2) row1) (take (length row1) row2) epsilon
   \<and> rowEqual row1 [] epsilon = Inr True
   \<and> rowEqual [] row2 epsilon = Inr True
   \<and> (length xs = length ys \<and> rowEqual xs ys epsilon = Inr True \<longrightarrow>
        rowEqual (xs @ extra) ys epsilon = Inr True
      \<and> rowEqual xs (ys @ extra) epsilon = Inr True)"
  by (simp add: rowEqual_def zip_take_lengths zip_append1 zip_append2)

theorem rowEqual_zip_truncation_witness:
  "length [VInt 1, VStr ''a''] = length [VInt 1, VStr ''a'']
   \<and> rowEqual [VInt 1, VStr ''a''] [VInt 1, VStr ''a''] (Fin (1 / 100000)) = Inr True
   \<and> rowEqual ([VInt 1, VStr ''a''] @ [VInt 7]) [VInt 1, VStr ''a''] (Fin (1 / 100000)) = Inr True
   \<and> rowEqual [VInt 1, VStr ''a''] ([VInt 1, VStr ''a''] @ [VInt 7]) (Fin (1 / 100000)) = Inr True"
proof -
  have h: "length [VInt 1, VStr ''a''] = length [VInt 1, VStr ''a'']
           \<and> rowEqual [VInt 1, VStr ''a''] [VInt 1, VStr ''a''] (Fin (1 / 100000)) = Inr True"
    by (simp add: rowEqual_def feq_def)
  show ?thesis
    using h rowEqual_zip_truncation
      [of _ _ "Fin (1 / 100000)" "[VInt 1, VStr ''a'']" "[VInt 1, VStr ''a'']" "[VInt 7]"]
    by simp
qed

section \<open>Properties of the dataset loader and orderer\<close>

lemma typeName_float_double:
  "typeName t \<in> set [typeName FloatType, typeName DoubleType] \<longleftrightarrow> t = FloatType \<or> t = DoubleType"
  by (cases t) simp_all





lemma collect_results_pair:
  "collect_results df q io ui = (fst (collect_results df q io ui), collected df q io)"
  by (simp add: collected_def collect_results_def Let_def)


text \<open>
  C3 (amended).  With ordering-insensitive comparison the rows are sorted by the key made of
  all columns whose type is neither float nor double (in schema order) followed by all
  float and double columns (in schema order); a fixed-point decimal column is in the
  leading group.
\<close>

theorem collect_results_sort_key:
  "snd (collect_results df query_name True use_iterator)
     = rows (sort (sort_key (skip_columns query_name df)) (skip_columns query_name df))
   \<and> sort_key df =
       map name (filter (\<lambda>field. dataType field \<noteq> FloatType \<and> dataType field \<noteq> DoubleType)
                   (schema df))
       @ map name (filter (\<lambda>field. dataType field = FloatType \<or> dataType field = DoubleType)
                     (schema df))
   \<and> (\<forall>field \<in> set (schema df).
         dataType field = DecimalType p s \<longrightarrow> name field \<in> set (non_float_cols df))"
proof (intro conjI)
  show "snd (collect_results df query_name True use_iterator)
     = rows (sort (sort_key (skip_columns query_name df)) (skip_columns query_name df))"
    by (simp add: collect_results_def Let_def)
  show "sort_key df =
       map name (filter (\<lambda>field. dataType field \<noteq> FloatType \<and> dataType field \<noteq> DoubleType)
                   (schema df))
       @ map name (filter (\<lambda>field. dataType field = FloatType \<or> dataType field = DoubleType)
                     (schema df))"
    unfolding sort_key_def non_float_cols_def float_cols_def typeName_float_double by simp
  show "\<forall>field \<in> set (schema df).
         dataType field = DecimalType p s \<longrightarrow> name field \<in> set (non_float_cols df)"
    by (auto simp add: non_float_cols_def)
qed

theorem collect_results_sort_key_witness:
  "\<lparr>name = ''l_quantity'', dataType = DecimalType 12 2\<rparr> \<in> set (schema lineitem_columns)
   \<and> ''l_quantity'' \<in> set (non_float_cols lineitem_columns)
   \<and> sort_key lineitem_columns = [''l_quantity'', ''l_orderkey'', ''l_discount'']"
proof -
  have h: "\<lparr>name = ''l_quantity'', dataType = DecimalType 12 2\<rparr> \<in> set (schema lineitem_columns)"
    by (simp add: lineitem_columns_def)
  show ?thesis
    using h collect_results_sort_key [of lineitem_columns "''query1''" True 12 2]
    by (auto simp add: lineitem_columns_def)
qed

text \<open>
  C3 as stated fails on a decimal column: for the schema (l_quantity decimal(12,2),
  l_orderkey long) the script sorts by l_quantity first, where the stated key starts with
  l_orderkey, and the two orders of the rows differ.
\<close>

theorem collect_results_sort_key_counterexample:
  "sort_key
     \<lparr>schema = [\<lparr>name = ''l_quantity'', dataType = DecimalType 12 2\<rparr>,
                \<lparr>name = ''l_orderkey'', dataType = LongType\<rparr>],
      rows = [[VDecimal 2, VInt 1], [VDecimal 1, VInt 2]]\<rparr>
     = [''l_quantity'', ''l_orderkey'']
   \<and> spec_sort_key
     \<lparr>schema = [\<lparr>name = ''l_quantity'', dataType = DecimalType 12 2\<rparr>,
                \<lparr>name = ''l_orderkey'', dataType = LongType\<rparr>],
      rows = [[VDecimal 2, VInt 1], [VDecimal 1, VInt 2]]\<rparr>
     = [''l_orderkey'', ''l_quantity'']
   \<and> snd (collect_results
     \<lparr>schema = [\<lparr>name = ''l_quantity'', dataType = DecimalType 12 2\<rparr>,
                \<lparr>name = ''l_orderkey'', dataType = LongType\<rparr>],
      rows = [[VDecimal 2, VInt 1], [VDecimal 1, VInt 2]]\<rparr> ''query1'' True False)
     = [[VDecimal 1, VInt 2], [VDecimal 2, VInt 1]]
   \<and> rows (sort [''l_orderkey'', ''l_quantity'']
     \<lparr>schema = [\<lparr>name = ''l_quantity'', dataType = DecimalType 12 2\<rparr>,
                \<lparr>name = ''l_orderkey'', dataType = LongType\<rparr>],
      rows = [[VDecimal 2, VInt 1], [VDecimal 1, VInt 2]]\<rparr>)
     = [[VDecimal 2, VInt 1], [VDecimal 1, VInt 2]]"
  by (simp add: sort_key_def spec_sort_key_def non_float_cols_def float_cols_def
        collect_results_def skip_columns_def SKIP_COLUMNS_def sort_def row_key_def Let_def)

section \<open>Properties of the query comparison driver\<close>

declare compare_loop.simps [simp del]

lemma compare_loop_exit:
  "\<not> (i < count1 \<and> errors < max_errors) \<Longrightarrow>
   compare_loop result1 result2 count1 i errors max_errors epsilon out = Inr (out, i, errors)"
  by (subst compare_loop.simps) auto

lemma compare_loop_step:
  "i < count1 \<Longrightarrow> errors < max_errors \<Longrightarrow> rowEqual lhs rhs epsilon = Inr equal \<Longrightarrow>
   compare_loop (lhs # rest1) (rhs # rest2) count1 i errors max_errors epsilon out =
     (if equal
      then compare_loop rest1 rest2 count1 (Suc i) errors max_errors epsilon out
      else compare_loop rest1 rest2 count1 (Suc i) (errors + 1) max_errors epsilon
             (out @ [RowDiffers i lhs rhs]))"
  by (subst compare_loop.simps) simp


lemma compare_loop_output:
  "compare_loop result1 result2 count1 i errors max_errors epsilon out = Inr (out2, i', errors')
   \<Longrightarrow> \<exists>out'. out2 = out @ out' \<and> list_all is_row_diff out'"
proof (induction result1 arbitrary: result2 i errors out)
  case Nil
  then show ?case
    by (subst (asm) compare_loop.simps) (auto split: if_splits)
next
  case (Cons lhs rest1)
  show ?case
  proof (cases "i < count1 \<and> errors < max_errors")
    case False
    with Cons.prems show ?thesis by (simp add: compare_loop_exit)
  next
    case True
    with Cons.prems obtain rhs rest2 equal where r2: "result2 = rhs # rest2"
      and re: "rowEqual lhs rhs epsilon = Inr equal"
      by (subst (asm) compare_loop.simps) (auto split: list.splits sum.splits)
    show ?thesis
    proof (cases equal)
      case True
      with Cons.prems r2 re \<open>i < count1 \<and> errors < max_errors\<close>
      have "compare_loop rest1 rest2 count1 (Suc i) errors max_errors epsilon out = Inr (out2, i', errors')"
        by (simp add: compare_loop_step)
      from Cons.IH [OF this] show ?thesis .
    next
      case False
      with Cons.prems r2 re \<open>i < count1 \<and> errors < max_errors\<close>
      have "compare_loop rest1 rest2 count1 (Suc i) (errors + 1) max_errors epsilon
              (out @ [RowDiffers i lhs rhs]) = Inr (out2, i', errors')"
        by (simp add: compare_loop_step)
      from Cons.IH [OF this] obtain out' where
        "out2 = (out @ [RowDiffers i lhs rhs]) @ out'" "list_all is_row_diff out'" by blast
      then show ?thesis
        by (intro exI [of _ "RowDiffers i lhs rhs # out'"]) simp
    qed
  qed
qed


lemma compare_results_equal_counts:
  assumes "query_name \<notin> set SKIP_QUERIES"
    and "spark_session input1_format input1 = Some df1"
    and "spark_session input2_format input2 = Some df2"
    and "count df1 = count df2"
  shows "compare_results spark_session input1 input2 input1_format input2_format
           ignore_ordering query_name use_iterator max_errors epsilon =
         (case compare_loop (collected df1 query_name ignore_ordering)
                 (collected df2 query_name ignore_ordering) (count df1) 0 0 max_errors epsilon
                 (fst (collect_results df1 query_name ignore_ordering use_iterator)
                  @ fst (collect_results df2 query_name ignore_ordering use_iterator)) of
            Inl e \<Rightarrow> Inl e
          | Inr (out, i, errors) \<Rightarrow>
              if errors = max_errors
              then Inr (out @ [Processed i, Aborting max_errors], False)
              else if errors = 0
              then Inr (out @ [Processed i, ResultsMatch], True)
              else Inr (out @ [Processed i, ThereWereErrors errors], False))"
proof -
  obtain o1 r1 where c1: "collect_results df1 query_name ignore_ordering use_iterator = (o1, r1)"
    by (cases "collect_results df1 query_name ignore_ordering use_iterator")
  obtain o2 r2 where c2: "collect_results df2 query_name ignore_ordering use_iterator = (o2, r2)"
    by (cases "collect_results df2 query_name ignore_ordering use_iterator")
  have r: "r1 = collected df1 query_name ignore_ordering" "r2 = collected df2 query_name ignore_ordering"
    using c1 c2 collect_results_pair [of df1 query_name ignore_ordering use_iterator]
      collect_results_pair [of df2 query_name ignore_ordering use_iterator] by simp_all
  show ?thesis
    using assms by (simp add: compare_results_def c1 c2 r)
qed

lemma compare_results_no_count_report:
  assumes nskip: "query_name \<notin> set SKIP_QUERIES"
    and l1: "spark_session input1_format input1 = Some df1"
    and l2: "spark_session input2_format input2 = Some df2"
    and cnt: "count df1 = count df2"
    and res: "compare_results spark_session input1 input2 input1_format input2_format
         ignore_ordering query_name use_iterator max_errors epsilon = Inr (out, matched)"
  shows "CountsDoNotMatch c1 c2 \<notin> set out"
proof -
  let ?o = "fst (collect_results df1 query_name ignore_ordering use_iterator)
            @ fst (collect_results df2 query_name ignore_ordering use_iterator)"
  from res obtain out2 i' errors' where
    run: "compare_loop (collected df1 query_name ignore_ordering)
                 (collected df2 query_name ignore_ordering) (count df1) 0 0 max_errors epsilon ?o
          = Inr (out2, i', errors')"
    and o: "out = out2 @ [Processed i', Aborting max_errors] \<or> out = out2 @ [Processed i', ResultsMatch]
        \<or> out = out2 @ [Processed i', ThereWereErrors errors']"
    unfolding compare_results_equal_counts [where spark_session = spark_session, OF nskip l1 l2 cnt]
    by (auto split: sum.splits prod.splits if_splits)
  from compare_loop_output [OF run] obtain out' where
    o2: "out2 = ?o @ out'" and all: "list_all is_row_diff out'" by blast
  have "CountsDoNotMatch c1 c2 \<notin> set out'"
    using all by (auto simp add: list_all_iff)
  moreover have "CountsDoNotMatch c1 c2 \<notin> set ?o"
    by (simp add: collect_results_def Let_def)
  ultimately show ?thesis using o o2 by auto
qed



text \<open>
  C5.  For a query that is not skipped and whose two sides have different row counts,
  \<open>compare_results\<close> returns a failed verdict whose only output is the report of the two
  counts, whatever the rows, the cap and the tolerance; with equal counts that report is
  never printed.
\<close>

theorem compare_results_count_mismatch:
  assumes "query_name \<notin> set SKIP_QUERIES"
    and "spark_session input1_format input1 = Some df1"
    and "spark_session input2_format input2 = Some df2"
  shows "(count df1 \<noteq> count df2 \<longrightarrow>
            compare_results spark_session input1 input2 input1_format input2_format
              ignore_ordering query_name use_iterator max_errors epsilon
            = Inr ([CountsDoNotMatch (count df1) (count df2)], False))
       \<and> (count df1 = count df2 \<longrightarrow>
            (\<forall>out matched c1 c2.
               compare_results spark_session input1 input2 input1_format input2_format
                 ignore_ordering query_name use_iterator max_errors epsilon = Inr (out, matched)
               \<longrightarrow> CountsDoNotMatch c1 c2 \<notin> set out))"
proof (intro conjI impI allI)
  assume "count df1 \<noteq> count df2"
  then show "compare_results spark_session input1 input2 input1_format input2_format
              ignore_ordering query_name use_iterator max_errors epsilon
            = Inr ([CountsDoNotMatch (count df1) (count df2)], False)"
    using assms by (simp add: compare_results_def)
next
  fix out matched c1 c2
  assume "count df1 = count df2"
    and "compare_results spark_session input1 input2 input1_format input2_format
                 ignore_ordering query_name use_iterator max_errors epsilon = Inr (out, matched)"
  then show "CountsDoNotMatch c1 c2 \<notin> set out"
    using compare_results_no_count_report [where spark_session = spark_session, OF assms]
    by blast
qed

theorem compare_results_count_mismatch_witness:
  "''query1'' \<notin> set SKIP_QUERIES
   \<and> two_sides fifteen_left no_rows ''parquet'' ''left/query1'' = Some fifteen_left
   \<and> two_sides fifteen_left no_rows ''parquet'' ''right/query1'' = Some no_rows
   \<and> count fifteen_left \<noteq> count no_rows
   \<and> compare_results (two_sides fifteen_left no_rows) ''left/query1'' ''right/query1''
        ''parquet'' ''parquet'' False ''query1'' True 10 (Fin (1 / 100000))
      = Inr ([CountsDoNotMatch 15 0], False)
   \<and> count no_rows = count no_rows
   \<and> compare_results (two_sides no_rows no_rows) ''left/query1'' ''right/query1''
        ''parquet'' ''parquet'' False ''query1'' True 10 (Fin (1 / 100000))
      = Inr ([Processed 0, ResultsMatch], True)
   \<and> CountsDoNotMatch 0 0 \<notin> set [Processed 0, ResultsMatch]"
proof -
  have h1: "''query1'' \<notin> set SKIP_QUERIES" by (simp add: SKIP_QUERIES_def)
  have h2: "two_sides fifteen_left no_rows ''parquet'' ''left/query1'' = Some fifteen_left"
    by (simp add: two_sides_def)
  have h3: "two_sides fifteen_left no_rows ''parquet'' ''right/query1'' = Some no_rows"
    by (simp add: two_sides_def)
  have h4: "count fifteen_left \<noteq> count no_rows"
    by (simp add: count_def fifteen_left_def no_rows_def)
  have c: "count fifteen_left = 15" "count no_rows = 0"
    by (simp_all add: count_def fifteen_left_def no_rows_def)
  have h5: "two_sides no_rows no_rows ''parquet'' ''left/query1'' = Some no_rows"
    by (simp add: two_sides_def)
  have h6: "two_sides no_rows no_rows ''parquet'' ''right/query1'' = Some no_rows"
    by (simp add: two_sides_def)
  have e: "compare_results (two_sides no_rows no_rows) ''left/query1'' ''right/query1''
        ''parquet'' ''parquet'' False ''query1'' True 10 (Fin (1 / 100000))
      = Inr ([Processed 0, ResultsMatch], True)"
    using h1 h5 h6
    by (simp add: compare_results_def count_def no_rows_def collect_results_def
          skip_columns_def SKIP_COLUMNS_def compare_loop_exit)
  show ?thesis
    using h1 h2 h3 h4 c e
      compare_results_count_mismatch
        [where spark_session = "two_sides fifteen_left no_rows", OF h1 h2 h3,
         of False True 10 "Fin (1 / 100000)"]
      compare_results_count_mismatch
        [where spark_session = "two_sides no_rows no_rows", OF h1 h5 h6,
         of False True 10 "Fin (1 / 100000)"]
    by simp
qed

text \<open>
  C8.  For a query identifier on the skip-list, which holds query15_part1 and
  query15_part3, \<open>compare_results\<close> returns a matched verdict and prints nothing, whatever
  the session can or cannot load.
\<close>

theorem compare_results_skip_list:
  "set SKIP_QUERIES = {''query15_part1'', ''query15_part3''}
   \<and> (query_name \<in> set SKIP_QUERIES \<longrightarrow>
        compare_results spark_session input1 input2 input1_format input2_format
          ignore_ordering query_name use_iterator max_errors epsilon = Inr ([], True))"
  by (auto simp add: compare_results_def SKIP_QUERIES_def)

theorem compare_results_skip_list_witness:
  "''query15_part1'' \<in> set SKIP_QUERIES
   \<and> compare_results (\<lambda>fmt path. None) ''left/query15_part1'' ''right/query15_part1''
        ''parquet'' ''parquet'' True ''query15_part1'' False 10 (Fin (1 / 100000))
      = Inr ([], True)"
proof -
  have h: "''query15_part1'' \<in> set SKIP_QUERIES" by (simp add: SKIP_QUERIES_def)
  show ?thesis
    using h compare_results_skip_list
      [of "''query15_part1''" "\<lambda>fmt path. None" "''left/query15_part1''"
          "''right/query15_part1''" "''parquet''" "''parquet''" True False 10
          "Fin (1 / 100000)"]
    by simp
qed

text \<open>
  C9.  For a query that is not skipped and whose two sides have equal row counts, a cap of 0
  gives a failed verdict: no row is processed, nothing but the collect messages is printed
  before the abort message, whatever the rows are.
\<close>

theorem compare_results_zero_cap:
  assumes "query_name \<notin> set SKIP_QUERIES"
    and "spark_session input1_format input1 = Some df1"
    and "spark_session input2_format input2 = Some df2"
    and "count df1 = count df2"
  shows "compare_results spark_session input1 input2 input1_format input2_format
           ignore_ordering query_name use_iterator 0 epsilon
         = Inr (fst (collect_results df1 query_name ignore_ordering use_iterator)
                @ fst (collect_results df2 query_name ignore_ordering use_iterator)
                @ [Processed 0, Aborting 0], False)"
  using assms
  by (simp add: compare_results_equal_counts [where spark_session = spark_session]
        compare_loop_exit)

theorem compare_results_zero_cap_witness:
  "''query1'' \<notin> set SKIP_QUERIES
   \<and> two_sides no_rows no_rows ''parquet'' ''left/query1'' = Some no_rows
   \<and> two_sides no_rows no_rows ''parquet'' ''right/query1'' = Some no_rows
   \<and> count no_rows = count no_rows
   \<and> compare_results (two_sides no_rows no_rows) ''left/query1'' ''right/query1''
        ''parquet'' ''parquet'' False ''query1'' True 0 (Fin (1 / 100000))
      = Inr ([Processed 0, Aborting 0], False)
   \<and> two_sides fifteen_left fifteen_left ''parquet'' ''left/query1'' = Some fifteen_left
   \<and> two_sides fifteen_left fifteen_left ''parquet'' ''right/query1'' = Some fifteen_left
   \<and> compare_results (two_sides fifteen_left fifteen_left) ''left/query1'' ''right/query1''
        ''parquet'' ''parquet'' False ''query1'' True 0 (Fin (1 / 100000))
      = Inr ([Processed 0, Aborting 0], False)"
proof -
  have h1: "''query1'' \<notin> set SKIP_QUERIES" by (simp add: SKIP_QUERIES_def)
  have h2: "two_sides no_rows no_rows ''parquet'' ''left/query1'' = Some no_rows"
    by (simp add: two_sides_def)
  have h3: "two_sides no_rows no_rows ''parquet'' ''right/query1'' = Some no_rows"
    by (simp add: two_sides_def)
  have h4: "count no_rows = count no_rows" by simp
  have h5: "two_sides fifteen_left fifteen_left ''parquet'' ''left/query1'' = Some fifteen_left"
    by (simp add: two_sides_def)
  have h6: "two_sides fifteen_left fifteen_left ''parquet'' ''right/query1'' = Some fifteen_left"
    by (simp add: two_sides_def)
  have h7: "count fifteen_left = count fifteen_left" by simp
  show ?thesis
    using h1 h2 h3 h5 h6
      compare_results_zero_cap
        [where spark_session = "two_sides no_rows no_rows", OF h1 h2 h3 h4,
         of False True "Fin (1 / 100000)"]
      compare_results_zero_cap
        [where spark_session = "two_sides fifteen_left fifteen_left", OF h1 h5 h6 h7,
         of False True "Fin (1 / 100000)"]
    by (simp add: collect_results_def)
qed

section \<open>Properties of the status reconciler\<close>

lemma map_of_dict_set: "map_of (dict_set k v kvs) = (map_of kvs)(k \<mapsto> v)"
  by (induction kvs) (auto simp add: fun_upd_twist)

lemma set_validation_status_list:
  assumes "query_name \<in> set unmatch_queries \<longrightarrow> map_of kvs ''queryStatus'' = Some (JArr status)"
  shows "set_validation_status query_name unmatch_queries (JObj kvs) =
           Inr (JObj (dict_set ''queryValidationStatus''
                  (JArr [JStr (expected_status query_name unmatch_queries status)]) kvs))"
  using assms by (simp add: set_validation_status_def expected_status_def)

lemma update_loop_spec:
  assumes "distinct qs"
    and "\<forall>q \<in> set qs. glob fs (summary_wildcard prefix q) = [summary_file q]"
    and "inj_on summary_file (set qs)"
    and "\<forall>q \<in> set qs. files fs (summary_file q) = Some (JObj (doc q))"
    and "\<forall>q \<in> set qs. q \<in> set unmatch_queries \<longrightarrow>
           map_of (doc q) ''queryStatus'' = Some (JArr (status q))"
  shows "\<exists>fs'. update_loop fs prefix unmatch_queries qs = (None, fs')
         \<and> glob fs' = glob fs \<and> path_exists fs' = path_exists fs
         \<and> (\<forall>f. f \<notin> summary_file ` set qs \<longrightarrow> files fs' f = files fs f)
         \<and> (\<forall>q \<in> set qs. files fs' (summary_file q) =
               Some (JObj (dict_set ''queryValidationStatus''
                  (JArr [JStr (expected_status q unmatch_queries (status q))]) (doc q))))"
  using assms
proof (induction qs arbitrary: fs)
  case Nil
  then show ?case by simp
next
  case (Cons q qs)
  let ?new = "JObj (dict_set ''queryValidationStatus''
                  (JArr [JStr (expected_status q unmatch_queries (status q))]) (doc q))"
  let ?fs1 = "fs\<lparr>files := (files fs)(summary_file q \<mapsto> ?new)\<rparr>"
  have g: "glob fs (summary_wildcard prefix q) = [summary_file q]"
    and d: "files fs (summary_file q) = Some (JObj (doc q))"
    and st: "q \<in> set unmatch_queries \<longrightarrow> map_of (doc q) ''queryStatus'' = Some (JArr (status q))"
    using Cons.prems by simp_all
  have step: "update_loop fs prefix unmatch_queries (q # qs)
                = update_loop ?fs1 prefix unmatch_queries qs"
    by (simp add: g d set_validation_status_list [OF st])
  have other: "summary_file q' \<noteq> summary_file q" if "q' \<in> set qs" for q'
    using that Cons.prems(1,3) by (auto simp add: inj_on_def)
  have p1: "distinct qs" using Cons.prems(1) by simp
  have p2: "\<forall>q' \<in> set qs. glob ?fs1 (summary_wildcard prefix q') = [summary_file q']"
    using Cons.prems(2) by simp
  have p3: "inj_on summary_file (set qs)"
    using Cons.prems(3) by (simp add: inj_on_def)
  have p4: "\<forall>q' \<in> set qs. files ?fs1 (summary_file q') = Some (JObj (doc q'))"
    using Cons.prems(4) other by simp
  have p5: "\<forall>q' \<in> set qs. q' \<in> set unmatch_queries \<longrightarrow>
           map_of (doc q') ''queryStatus'' = Some (JArr (status q'))"
    using Cons.prems(5) by simp
  from Cons.IH [OF p1 p2 p3 p4 p5] obtain fs' where
    run: "update_loop ?fs1 prefix unmatch_queries qs = (None, fs')"
    and gl: "glob fs' = glob ?fs1" and pe: "path_exists fs' = path_exists ?fs1"
    and keep: "\<forall>f. f \<notin> summary_file ` set qs \<longrightarrow> files fs' f = files ?fs1 f"
    and upd: "\<forall>q' \<in> set qs. files fs' (summary_file q') =
               Some (JObj (dict_set ''queryValidationStatus''
                  (JArr [JStr (expected_status q' unmatch_queries (status q'))]) (doc q')))"
    by blast
  have nq: "summary_file q \<notin> summary_file ` set qs"
  proof
    assume "summary_file q \<in> summary_file ` set qs"
    then obtain q' where "q' \<in> set qs" and "summary_file q' = summary_file q" by auto
    with other show False by blast
  qed
  have here: "files fs' (summary_file q) = Some ?new"
    using keep nq by simp
  have keep': "\<forall>f. f \<notin> summary_file ` set (q # qs) \<longrightarrow> files fs' f = files fs f"
    using keep by simp
  show ?case
    unfolding step run using gl pe keep' here upd by simp
qed

text \<open>
  C7.  In a summary folder where every query of the suite has exactly one summary file of
  its own, each holding a JSON object (with a list-valued queryStatus for the queries that
  failed validation), \<open>update_summary\<close> completes and leaves in the file of every query the
  same object with queryValidationStatus set to ["Fail"] when the query failed validation and
  its queryStatus holds Completed or CompletedWithTaskFailures, to ["NotAttempted"] when it
  failed validation and its queryStatus holds neither, and to ["Pass"] when it did not fail
  validation, whatever its queryStatus.
\<close>

theorem update_summary_validation_status:
  assumes "path_exists fs prefix"
    and "distinct (map fst query_dict)"
    and "\<forall>q \<in> set (map fst query_dict). glob fs (summary_wildcard prefix q) = [summary_file q]"
    and "inj_on summary_file (set (map fst query_dict))"
    and "\<forall>q \<in> set (map fst query_dict). files fs (summary_file q) = Some (JObj (doc q))"
    and "\<forall>q \<in> set (map fst query_dict). q \<in> set unmatch_queries \<longrightarrow>
           map_of (doc q) ''queryStatus'' = Some (JArr (status q))"
  shows "\<exists>fs'. update_summary fs query_dict prefix unmatch_queries = (None, fs')
     \<and> (\<forall>q \<in> set (map fst query_dict). \<exists>doc'.
           files fs' (summary_file q) = Some (JObj doc')
         \<and> map_of doc' = (map_of (doc q))(''queryValidationStatus'' \<mapsto>
              JArr [JStr (if q \<in> set unmatch_queries
                          then (if JStr ''Completed'' \<in> set (status q)
                                   \<or> JStr ''CompletedWithTaskFailures'' \<in> set (status q)
                                then ''Fail'' else ''NotAttempted'')
                          else ''Pass'')]))"
proof -
  from update_loop_spec [OF assms(2-6)] obtain fs' where
    run: "update_loop fs prefix unmatch_queries (map fst query_dict) = (None, fs')"
    and upd: "\<forall>q \<in> set (map fst query_dict). files fs' (summary_file q) =
               Some (JObj (dict_set ''queryValidationStatus''
                  (JArr [JStr (expected_status q unmatch_queries (status q))]) (doc q)))"
    by blast
  have "update_summary fs query_dict prefix unmatch_queries = (None, fs')"
    using assms(1) run by (simp add: update_summary_def)
  moreover have "\<forall>q \<in> set (map fst query_dict). \<exists>doc'.
           files fs' (summary_file q) = Some (JObj doc')
         \<and> map_of doc' = (map_of (doc q))(''queryValidationStatus'' \<mapsto>
              JArr [JStr (expected_status q unmatch_queries (status q))])"
    using upd by (auto simp add: map_of_dict_set simp del: set_map)
  ultimately show ?thesis
    unfolding expected_status_def by blast
qed

theorem update_summary_validation_status_witness:
  "path_exists summary_folder ''summary''
   \<and> (\<exists>fs'. update_summary summary_folder
               [(''query1'', ''select 1''), (''query2'', ''select 2''), (''query3'', ''select 3'')]
               ''summary'' [''query1'', ''query2''] = (None, fs')
        \<and> (\<exists>d. files fs' ''summary/power-query1-7.json'' = Some (JObj d)
               \<and> map_of d ''queryValidationStatus'' = Some (JArr [JStr ''Fail'']))
        \<and> (\<exists>d. files fs' ''summary/power-query2-7.json'' = Some (JObj d)
               \<and> map_of d ''queryValidationStatus'' = Some (JArr [JStr ''NotAttempted'']))
        \<and> (\<exists>d. files fs' ''summary/power-query3-7.json'' = Some (JObj d)
               \<and> map_of d ''queryValidationStatus'' = Some (JArr [JStr ''Pass''])))"
proof -
  let ?qd = "[(''query1'', ''select 1''), (''query2'', ''select 2''), (''query3'', ''select 3'')]"
  let ?file = "\<lambda>q. ''summary/power-'' @ q @ ''-7.json''"
  let ?status = "\<lambda>q. [JStr (if q = ''query1'' then ''Completed'' else ''Failed'')]"
  let ?doc = "\<lambda>q. [(''query'', JStr q), (''queryStatus'', JArr (?status q))]"
  have h1: "path_exists summary_folder ''summary''"
    by (simp add: summary_folder_def)
  have h2: "distinct (map fst ?qd)" by simp
  have h3: "\<forall>q \<in> set (map fst ?qd). glob summary_folder (summary_wildcard ''summary'' q) = [?file q]"
    by (simp add: summary_folder_def summary_wildcard_def)
  have h4: "inj_on ?file (set (map fst ?qd))"
    by (simp add: inj_on_def)
  have h5: "\<forall>q \<in> set (map fst ?qd). files summary_folder (?file q) = Some (JObj (?doc q))"
    by (simp add: summary_folder_def)
  have h6: "\<forall>q \<in> set (map fst ?qd). q \<in> set [''query1'', ''query2''] \<longrightarrow>
           map_of (?doc q) ''queryStatus'' = Some (JArr (?status q))"
    by simp
  from update_summary_validation_status
    [where summary_file = "?file" and doc = "?doc" and status = "?status", OF h1 h2 h3 h4 h5 h6]
  obtain fs' where
    run: "update_summary summary_folder ?qd ''summary'' [''query1'', ''query2''] = (None, fs')"
    and upd: "\<forall>q \<in> set (map fst ?qd). \<exists>doc'.
           files fs' (?file q) = Some (JObj doc')
         \<and> map_of doc' = (map_of (?doc q))(''queryValidationStatus'' \<mapsto>
              JArr [JStr (if q \<in> set [''query1'', ''query2'']
                          then (if JStr ''Completed'' \<in> set (?status q)
                                   \<or> JStr ''CompletedWithTaskFailures'' \<in> set (?status q)
                                then ''Fail'' else ''NotAttempted'')
                          else ''Pass'')])"
    by blast
  have u1: "\<exists>d. files fs' ''summary/power-query1-7.json'' = Some (JObj d)
               \<and> map_of d ''queryValidationStatus'' = Some (JArr [JStr ''Fail''])"
  proof -
    from upd have "\<exists>doc'. files fs' (?file ''query1'') = Some (JObj doc')
         \<and> map_of doc' = (map_of (?doc ''query1''))(''queryValidationStatus'' \<mapsto>
              JArr [JStr ''Fail''])"
      by simp
    then obtain d where "files fs' (?file ''query1'') = Some (JObj d)"
      and "map_of d = (map_of (?doc ''query1''))(''queryValidationStatus'' \<mapsto>
              JArr [JStr ''Fail''])"
      by blast
    then have "files fs' ''summary/power-query1-7.json'' = Some (JObj d)
               \<and> map_of d ''queryValidationStatus'' = Some (JArr [JStr ''Fail''])"
      by simp
    then show ?thesis by blast
  qed
  have u2: "\<exists>d. files fs' ''summary/power-query2-7.json'' = Some (JObj d)
               \<and> map_of d ''queryValidationStatus'' = Some (JArr [JStr ''NotAttempted''])"
  proof -
    from upd have "\<exists>doc'. files fs' (?file ''query2'') = Some (JObj doc')
         \<and> map_of doc' = (map_of (?doc ''query2''))(''queryValidationStatus'' \<mapsto>
              JArr [JStr ''NotAttempted''])"
      by simp
    then obtain d where "files fs' (?file ''query2'') = Some (JObj d)"
      and "map_of d = (map_of (?doc ''query2''))(''queryValidationStatus'' \<mapsto>
              JArr [JStr ''NotAttempted''])"
      by blast
    then have "files fs' ''summary/power-query2-7.json'' = Some (JObj d)
               \<and> map_of d ''queryValidationStatus'' = Some (JArr [JStr ''NotAttempted''])"
      by simp
    then show ?thesis by blast
  qed
  have u3: "\<exists>d. files fs' ''summary/power-query3-7.json'' = Some (JObj d)
               \<and> map_of d ''queryValidationStatus'' = Some (JArr [JStr ''Pass''])"
  proof -
    from upd have "\<exists>doc'. files fs' (?file ''query3'') = Some (JObj doc')
         \<and> map_of doc' = (map_of (?doc ''query3''))(''queryValidationStatus'' \<mapsto>
              JArr [JStr ''Pass''])"
      by simp
    then obtain d where "files fs' (?file ''query3'') = Some (JObj d)"
      and "map_of d = (map_of (?doc ''query3''))(''queryValidationStatus'' \<mapsto>
              JArr [JStr ''Pass''])"
      by blast
    then have "files fs' ''summary/power-query3-7.json'' = Some (JObj d)
               \<and> map_of d ''queryValidationStatus'' = Some (JArr [JStr ''Pass''])"
      by simp
    then show ?thesis by blast
  qed
  show ?thesis
    using h1 run u1 u2 u3 by blast
qed

end
